theory Spec2Isabelle
  imports Main
begin

section \<open>Security-group reconciliation and controller configuration\<close>

text \<open>
  A shallow embedding of the security-group reconciler (package \<open>networking\<close>:
  \<open>ReconcileIngress\<close>, \<open>diffIPPermissionInfos\<close>, the functional options) and of
  \<open>ControllerConfig.Validate\<close> (package \<open>config\<close>).

  Go values are modelled as follows: a struct is a record, a pointer that may be nil
  is an \<open>option\<close>, a slice is a list (a nil slice and an empty slice are both \<open>[]\<close>;
  the code only ranges over slices and takes their \<open>len\<close>), a \<open>map[string]T\<close> is a
  partial function, and a Go \<open>error\<close> result is an \<open>error option\<close> with \<open>None\<close>
  for nil. Calls on the \<open>SecurityGroupManager\<close> interface are effects on the cloud
  resource: the manager is a record of state-passing functions over a state \<open>'s\<close>.
  The \<open>context.Context\<close> argument is only handed on to the manager and is left out.
\<close>

subsection \<open>Errors\<close>

text \<open>A Go error value; the code only creates errors, tests them for nil and returns them.\<close>

datatype error = Error string

subsection \<open>Permissions\<close>

type_synonym Labels = "string \<rightharpoonup> string"

text \<open>
  \<open>labels.Selector\<close> (k8s.io/apimachinery) is used through \<open>Matches\<close> only, so a
  selector is the predicate that \<open>Matches\<close> computes on a label set.
\<close>

type_synonym Selector = "Labels \<Rightarrow> bool"

text \<open>\<open>labels.Everything()\<close>: the selector that matches every label set.\<close>

definition Everything :: Selector where
  "Everything = (\<lambda>_. True)"

text \<open>
  Modelled from the spec: the declaration of \<open>IPPermissionInfo\<close> is not among the
  source files; the code shows its \<open>Labels\<close> field only. The spec gives the shape
  \<open>{Protocol, FromPort, ToPort, Peer(s), Labels}\<close>, a port being absent for
  "all ports" and a peer a CIDR block, a referenced security group or a prefix list.
\<close>

datatype Peer = CIDR string | GroupRef string | PrefixList string

record IPPermissionInfo =
  Protocol :: string
  FromPort :: "int option"
  ToPort :: "int option"
  Peers :: "Peer list"
  Labels :: Labels

text \<open>
  \<open>cmp.Equal(sPermission, tPermission, opts)\<close> with the options of
  \<open>diffIPPermissionInfos\<close>. \<open>cmpopts.IgnoreFields(IPPermissionInfo{}, "Labels")\<close>
  is in the source: the \<open>Labels\<close> field takes no part in the comparison.

  Modelled from the spec: \<open>ec2equality.CompareOptionForIPPermission\<close> is not among
  the source files. By the spec, equality "requires structural equality of protocol,
  port range, and peer specification"; two absent ports are equal.
\<close>

definition cmpEqual :: "IPPermissionInfo \<Rightarrow> IPPermissionInfo \<Rightarrow> bool" where
  "cmpEqual s t \<longleftrightarrow>
     Protocol s = Protocol t \<and> FromPort s = FromPort t \<and> ToPort s = ToPort t \<and>
     Peers s = Peers t"

subsection \<open>diffIPPermissionInfos\<close>

text \<open>
  The inner loop over \<open>target\<close>: \<open>containsInTarget\<close> starts false and the loop
  breaks at the first equal element.
\<close>

fun containsInTarget :: "IPPermissionInfo \<Rightarrow> IPPermissionInfo list \<Rightarrow> bool" where
  "containsInTarget sPermission [] = False"
| "containsInTarget sPermission (tPermission # target) =
     (if cmpEqual sPermission tPermission then True
      else containsInTarget sPermission target)"

text \<open>The outer loop over \<open>source\<close>, with the slice \<open>diffs\<close> built by \<open>append\<close>.\<close>

fun diffLoop ::
  "IPPermissionInfo list \<Rightarrow> IPPermissionInfo list \<Rightarrow> IPPermissionInfo list \<Rightarrow>
   IPPermissionInfo list" where
  "diffLoop [] target diffs = diffs"
| "diffLoop (sPermission # source) target diffs =
     diffLoop source target
       (if \<not> containsInTarget sPermission target then diffs @ [sPermission] else diffs)"

definition diffIPPermissionInfos ::
  "IPPermissionInfo list \<Rightarrow> IPPermissionInfo list \<Rightarrow> IPPermissionInfo list" where
  "diffIPPermissionInfos source target = diffLoop source target []"

subsection \<open>Reconcile options\<close>

record SecurityGroupReconcileOptions =
  PermissionSelector :: Selector

text \<open>
  A \<open>SecurityGroupReconcileOption\<close> is a function that mutates the options through a
  pointer; here it returns the updated options.
\<close>

type_synonym SecurityGroupReconcileOption =
  "SecurityGroupReconcileOptions \<Rightarrow> SecurityGroupReconcileOptions"

fun ApplyOptions ::
  "SecurityGroupReconcileOptions \<Rightarrow> SecurityGroupReconcileOption list \<Rightarrow>
   SecurityGroupReconcileOptions" where
  "ApplyOptions opts [] = opts"
| "ApplyOptions opts (option # options) = ApplyOptions (option opts) options"

definition WithPermissionSelector :: "Selector \<Rightarrow> SecurityGroupReconcileOption" where
  "WithPermissionSelector permissionSelector =
     (\<lambda>opts. opts\<lparr>PermissionSelector := permissionSelector\<rparr>)"

subsection \<open>The security-group manager\<close>

text \<open>
  Modelled from the spec: the declarations of \<open>SecurityGroupInfo\<close> and of the
  \<open>SecurityGroupManager\<close> interface are not among the source files. The code reads
  the \<open>Ingress\<close> field of the fetched info and calls \<open>FetchSGInfosByID\<close> (variadic
  in the group IDs, returning a map from ID to info and an error),
  \<open>RevokeSGIngress\<close> and \<open>AuthorizeSGIngress\<close> (each returning an error).
\<close>

record SecurityGroupInfo =
  SecurityGroupID :: string
  Ingress :: "IPPermissionInfo list"

record 's SecurityGroupManager =
  FetchSGInfosByID :: "string list \<Rightarrow> 's \<Rightarrow> (error + (string \<rightharpoonup> SecurityGroupInfo)) \<times> 's"
  RevokeSGIngress :: "string \<Rightarrow> IPPermissionInfo list \<Rightarrow> 's \<Rightarrow> error option \<times> 's"
  AuthorizeSGIngress :: "string \<Rightarrow> IPPermissionInfo list \<Rightarrow> 's \<Rightarrow> error option \<times> 's"

text \<open>
  \<open>sgInfoByID[sgID]\<close>: indexing a Go map at a missing key gives the zero value, a
  \<open>SecurityGroupInfo\<close> with an empty ID and no ingress permissions.
\<close>

definition indexSGInfo :: "(string \<rightharpoonup> SecurityGroupInfo) \<Rightarrow> string \<Rightarrow> SecurityGroupInfo" where
  "indexSGInfo sgInfoByID sgID =
     (case sgInfoByID sgID of
        None \<Rightarrow> \<lparr>SecurityGroupID = [], Ingress = []\<rparr>
      | Some sgInfo \<Rightarrow> sgInfo)"

subsection \<open>ReconcileIngress\<close>

text \<open>
  The loop that keeps the extra permissions whose labels the selector matches,
  appending to \<open>permissionsToRevoke\<close>.
\<close>

fun selectLoop ::
  "Selector \<Rightarrow> IPPermissionInfo list \<Rightarrow> IPPermissionInfo list \<Rightarrow> IPPermissionInfo list" where
  "selectLoop sel [] permissionsToRevoke = permissionsToRevoke"
| "selectLoop sel (permission # extraPermissions) permissionsToRevoke =
     selectLoop sel extraPermissions
       (if sel (Labels permission) then permissionsToRevoke @ [permission]
        else permissionsToRevoke)"

definition ReconcileIngress ::
  "'s SecurityGroupManager \<Rightarrow> string \<Rightarrow> IPPermissionInfo list \<Rightarrow>
   SecurityGroupReconcileOption list \<Rightarrow> 's \<Rightarrow> error option \<times> 's" where
  "ReconcileIngress sgManager sgID desiredPermissions opts s =
     (let reconcileOpts = ApplyOptions \<lparr>PermissionSelector = Everything\<rparr> opts in
      case FetchSGInfosByID sgManager [sgID] s of
        (Inl err, s1) \<Rightarrow> (Some err, s1)
      | (Inr sgInfoByID, s1) \<Rightarrow>
         (let sgInfo = indexSGInfo sgInfoByID sgID;
              extraPermissions = diffIPPermissionInfos (Ingress sgInfo) desiredPermissions;
              permissionsToRevoke =
                selectLoop (PermissionSelector reconcileOpts) extraPermissions [];
              permissionsToGrant = diffIPPermissionInfos desiredPermissions (Ingress sgInfo)
          in
            case (if length permissionsToRevoke > 0
                  then RevokeSGIngress sgManager sgID permissionsToRevoke s1
                  else (None, s1)) of
              (Some err, s2) \<Rightarrow> (Some err, s2)
            | (None, s2) \<Rightarrow>
                (if length permissionsToGrant > 0
                 then AuthorizeSGIngress sgManager sgID permissionsToGrant s2
                 else (None, s2))))"

text \<open>
  The values of the local variables of \<open>ReconcileIngress\<close> as functions of the
  options, the fetched map and the desired permissions, written with the expressions
  of the code; \<open>ReconcileIngress_fetched\<close> below shows that the pass uses them.
\<close>

definition reconcileSelector :: "SecurityGroupReconcileOption list \<Rightarrow> Selector" where
  "reconcileSelector opts =
     PermissionSelector (ApplyOptions \<lparr>PermissionSelector = Everything\<rparr> opts)"

definition observedIngress ::
  "(string \<rightharpoonup> SecurityGroupInfo) \<Rightarrow> string \<Rightarrow> IPPermissionInfo list" where
  "observedIngress sgInfoByID sgID = Ingress (indexSGInfo sgInfoByID sgID)"

definition permissionsToRevoke ::
  "Selector \<Rightarrow> IPPermissionInfo list \<Rightarrow> IPPermissionInfo list \<Rightarrow> IPPermissionInfo list" where
  "permissionsToRevoke sel ingress desiredPermissions =
     selectLoop sel (diffIPPermissionInfos ingress desiredPermissions) []"

definition permissionsToGrant ::
  "IPPermissionInfo list \<Rightarrow> IPPermissionInfo list \<Rightarrow> IPPermissionInfo list" where
  "permissionsToGrant ingress desiredPermissions =
     diffIPPermissionInfos desiredPermissions ingress"

subsection \<open>Observing the calls of a pass\<close>

text \<open>
  A manager that records its invocation sequence: every call of the wrapped manager is
  passed on unchanged and appended to a log kept beside the manager's state.
\<close>

datatype call =
    FetchCall "string list"
  | RevokeCall string "IPPermissionInfo list"
  | AuthorizeCall string "IPPermissionInfo list"

definition recording :: "'s SecurityGroupManager \<Rightarrow> ('s \<times> call list) SecurityGroupManager" where
  "recording m =
     \<lparr>FetchSGInfosByID = (\<lambda>sgIDs (s, log).
        case FetchSGInfosByID m sgIDs s of (r, s') \<Rightarrow> (r, (s', log @ [FetchCall sgIDs]))),
      RevokeSGIngress = (\<lambda>sgID permissions (s, log).
        case RevokeSGIngress m sgID permissions s of
          (r, s') \<Rightarrow> (r, (s', log @ [RevokeCall sgID permissions]))),
      AuthorizeSGIngress = (\<lambda>sgID permissions (s, log).
        case AuthorizeSGIngress m sgID permissions s of
          (r, s') \<Rightarrow> (r, (s', log @ [AuthorizeCall sgID permissions])))\<rparr>"

text \<open>The permissions handed to revoke calls and to grant calls in a log, in order.\<close>

fun revoked :: "call list \<Rightarrow> IPPermissionInfo list" where
  "revoked [] = []"
| "revoked (RevokeCall sgID permissions # calls) = permissions @ revoked calls"
| "revoked (c # calls) = revoked calls"

fun granted :: "call list \<Rightarrow> IPPermissionInfo list" where
  "granted [] = []"
| "granted (AuthorizeCall sgID permissions # calls) = permissions @ granted calls"
| "granted (c # calls) = granted calls"

subsection \<open>An in-memory manager\<close>

text \<open>
  Modelled from the spec: no implementation of the manager is among the source files.
  The spec names "a fake/in-memory implementation (for tests)" and fixes the contract:
  a fetch returns the current state and unknown IDs are a caller error; a revoke
  removes all listed permissions or none; a grant adds all listed permissions or none.
  The state maps a group ID to its ingress permissions. Labels are not transmitted to
  the provider, so a revoke removes the stored rules that are equal to a listed one
  under the comparison of the diff. When a mutation is refused is left to two
  parameters, which see the stored and the listed permissions; a refused call
  returns an error and changes nothing.
\<close>

type_synonym memState = "string \<rightharpoonup> IPPermissionInfo list"

definition memInfos :: "string list \<Rightarrow> memState \<Rightarrow> (string \<rightharpoonup> SecurityGroupInfo)" where
  "memInfos sgIDs s =
     (\<lambda>sgID. if sgID \<in> set sgIDs
             then map_option (\<lambda>ingress. \<lparr>SecurityGroupID = sgID, Ingress = ingress\<rparr>) (s sgID)
             else None)"

definition memFetch ::
  "string list \<Rightarrow> memState \<Rightarrow> (error + (string \<rightharpoonup> SecurityGroupInfo)) \<times> memState" where
  "memFetch sgIDs s =
     (if \<forall>sgID \<in> set sgIDs. s sgID \<noteq> None
      then (Inr (memInfos sgIDs s), s)
      else (Inl (Error ''security group not found''), s))"

definition memRevoke ::
  "(IPPermissionInfo list \<Rightarrow> IPPermissionInfo list \<Rightarrow> bool) \<Rightarrow>
   string \<Rightarrow> IPPermissionInfo list \<Rightarrow> memState \<Rightarrow> error option \<times> memState" where
  "memRevoke revokeOK sgID permissions s =
     (case s sgID of
        None \<Rightarrow> (Some (Error ''security group not found''), s)
      | Some ingress \<Rightarrow>
          if revokeOK ingress permissions
          then (None, s(sgID \<mapsto> diffIPPermissionInfos ingress permissions))
          else (Some (Error ''revoke refused''), s))"

definition memAuthorize ::
  "(IPPermissionInfo list \<Rightarrow> IPPermissionInfo list \<Rightarrow> bool) \<Rightarrow>
   string \<Rightarrow> IPPermissionInfo list \<Rightarrow> memState \<Rightarrow> error option \<times> memState" where
  "memAuthorize grantOK sgID permissions s =
     (case s sgID of
        None \<Rightarrow> (Some (Error ''security group not found''), s)
      | Some ingress \<Rightarrow>
          if grantOK ingress permissions
          then (None, s(sgID \<mapsto> ingress @ permissions))
          else (Some (Error ''grant refused''), s))"

definition memManager ::
  "(IPPermissionInfo list \<Rightarrow> IPPermissionInfo list \<Rightarrow> bool) \<Rightarrow>
   (IPPermissionInfo list \<Rightarrow> IPPermissionInfo list \<Rightarrow> bool) \<Rightarrow>
   memState SecurityGroupManager" where
  "memManager revokeOK grantOK =
     \<lparr>FetchSGInfosByID = memFetch,
      RevokeSGIngress = memRevoke revokeOK,
      AuthorizeSGIngress = memAuthorize grantOK\<rparr>"

text \<open>The manager that refuses nothing.\<close>

definition always :: "IPPermissionInfo list \<Rightarrow> IPPermissionInfo list \<Rightarrow> bool" where
  "always ingress permissions = True"

text \<open>
  Modelled from the spec: a grant "must reject (not silently ignore)
  conflicting/duplicate rules": the listed permissions must be pairwise different
  under the comparison and different from every stored one.
\<close>

fun noDuplicates :: "IPPermissionInfo list \<Rightarrow> IPPermissionInfo list \<Rightarrow> bool" where
  "noDuplicates ingress [] = True"
| "noDuplicates ingress (p # permissions) =
     (\<not> containsInTarget p ingress \<and> \<not> containsInTarget p permissions \<and>
      noDuplicates ingress permissions)"

subsection \<open>Controller configuration\<close>

text \<open>
  Modelled from the spec: the declarations of \<open>RuntimeConfig\<close>, \<open>IngressConfig\<close> and
  \<open>AddonsConfig\<close> are not among the source files. \<open>RuntimeConfig\<close> has the fields
  that \<open>BuildRestConfig\<close> and \<open>BuildRuntimeOptions\<close> read; \<open>Scheme\<close> is a pointer
  (\<open>None\<close> for nil) to an opaque \<open>runtime.Scheme\<close>. The two other structs are type
  parameters.
\<close>

record 'scheme RuntimeConfig =
  APIServer :: string
  KubeConfig :: string
  Scheme :: "'scheme option"
  ControllerPort :: int
  MetricsBindAddress :: string
  EnableLeaderElection :: bool
  LeaderElectionID :: string
  LeaderElectionNamespace :: string
  WatchNamespace :: string
  SyncPeriod :: int

record ('scheme, 'ingress, 'addons) ControllerConfig =
  LogLevel :: string
  ClusterName :: string
  IngressConfig :: 'ingress
  AddonsConfig :: 'addons
  RuntimeConfig :: "'scheme RuntimeConfig"
  ServiceMaxConcurrentReconciles :: int
  TargetgroupBindingMaxConcurrentReconciles :: int

definition Validate :: "('scheme, 'ingress, 'addons) ControllerConfig \<Rightarrow> error option" where
  "Validate cfg =
     (if length (ClusterName cfg) = 0
      then Some (Error ''Kubernetes cluster name must be specified'')
      else if Scheme (RuntimeConfig cfg) = None
      then Some (Error ''Controller runtime scheme not initialzied'')
      else None)"

subsection \<open>Notions of the specification\<close>

text \<open>
  Two collections of permissions are equal under the equality policy when every
  permission of each has an equal one in the other.
\<close>

definition sameRules :: "IPPermissionInfo set \<Rightarrow> IPPermissionInfo set \<Rightarrow> bool" where
  "sameRules A B \<longleftrightarrow>
     (\<forall>a \<in> A. \<exists>b \<in> B. cmpEqual a b) \<and> (\<forall>b \<in> B. \<exists>a \<in> A. cmpEqual b a)"

text \<open>
  "The union of (observed minus revoked) and granted", for the observed permissions
  and the calls of a pass.
\<close>

definition passResult :: "IPPermissionInfo list \<Rightarrow> call list \<Rightarrow> IPPermissionInfo set" where
  "passResult observed calls = (set observed - set (revoked calls)) \<union> set (granted calls)"

text \<open>
  "Desired state restricted to the selector's scope, plus any out-of-scope observed
  entries".
\<close>

definition scopedTarget ::
  "Selector \<Rightarrow> IPPermissionInfo list \<Rightarrow> IPPermissionInfo list \<Rightarrow> IPPermissionInfo set" where
  "scopedTarget sel observed desired =
     {d \<in> set desired. sel (Labels d)} \<union> {p \<in> set observed. \<not> sel (Labels p)}"

text \<open>
  Running \<open>ReconcileIngress\<close> twice in a row: the second pass starts in the state the
  first one left, and its calls are recorded.
\<close>

definition secondRunCalls ::
  "'s SecurityGroupManager \<Rightarrow> string \<Rightarrow> IPPermissionInfo list \<Rightarrow>
   SecurityGroupReconcileOption list \<Rightarrow> 's \<Rightarrow> call list" where
  "secondRunCalls m sgID desired opts s =
     (case ReconcileIngress m sgID desired opts s of
        (r1, s1) \<Rightarrow> snd (snd (ReconcileIngress (recording m) sgID desired opts (s1, []))))"

subsection \<open>Example data\<close>

definition rule :: "string \<Rightarrow> int \<Rightarrow> string \<Rightarrow> Labels \<Rightarrow> IPPermissionInfo" where
  "rule proto port cidr labels =
     \<lparr>Protocol = proto, FromPort = Some port, ToPort = Some port, Peers = [CIDR cidr],
      Labels = labels\<rparr>"

definition noLabels :: Labels where
  "noLabels = Map.empty"

definition ownedLabels :: Labels where
  "ownedLabels = [''owner'' \<mapsto> ''controller'']"

definition ownedSelector :: Selector where
  "ownedSelector labels \<longleftrightarrow> labels ''owner'' = Some ''controller''"

definition oneGroup :: "string \<Rightarrow> IPPermissionInfo list \<Rightarrow> memState" where
  "oneGroup sgID ingress = [sgID \<mapsto> ingress]"

definition never :: "IPPermissionInfo list \<Rightarrow> IPPermissionInfo list \<Rightarrow> bool" where
  "never ingress permissions = False"

definition exampleConfig :: "string \<Rightarrow> unit option \<Rightarrow> string \<Rightarrow> (unit, unit, unit) ControllerConfig" where
  "exampleConfig name scheme level =
     \<lparr>LogLevel = level, ClusterName = name, IngressConfig = (), AddonsConfig = (),
      RuntimeConfig = \<lparr>APIServer = [], KubeConfig = [], Scheme = scheme,
        ControllerPort = 9443, MetricsBindAddress = '':8080'',
        EnableLeaderElection = True, LeaderElectionID = [], LeaderElectionNamespace = [],
        WatchNamespace = [], SyncPeriod = 0\<rparr>,
      ServiceMaxConcurrentReconciles = 3,
      TargetgroupBindingMaxConcurrentReconciles = 3\<rparr>"

section \<open>Auxiliary facts\<close>

subsection \<open>The difference of two permission lists\<close>

lemma containsInTarget_iff:
  "containsInTarget s target \<longleftrightarrow> (\<exists>t \<in> set target. cmpEqual s t)"
  by (induction target) auto

lemma diffLoop_filter:
  "diffLoop source target diffs =
     diffs @ filter (\<lambda>s. \<not> containsInTarget s target) source"
  by (induction source arbitrary: diffs) auto

lemma diff_filter:
  "diffIPPermissionInfos source target =
     filter (\<lambda>s. \<forall>t \<in> set target. \<not> cmpEqual s t) source"
  by (simp add: diffIPPermissionInfos_def diffLoop_filter containsInTarget_iff)

lemma selectLoop_filter:
  "selectLoop sel extra acc = acc @ filter (\<lambda>p. sel (Labels p)) extra"
  by (induction extra arbitrary: acc) auto

lemma permissionsToRevoke_filter:
  "permissionsToRevoke sel ingress desired =
     filter (\<lambda>p. sel (Labels p) \<and> (\<forall>d \<in> set desired. \<not> cmpEqual p d)) ingress"
  by (simp add: permissionsToRevoke_def selectLoop_filter diff_filter conj_commute)

lemma permissionsToGrant_filter:
  "permissionsToGrant ingress desired =
     filter (\<lambda>d. \<forall>p \<in> set ingress. \<not> cmpEqual d p) desired"
  by (simp add: permissionsToGrant_def diff_filter)

subsection \<open>The equality policy is an equivalence that does not see labels\<close>

lemma cmpEqual_refl: "cmpEqual p p"
  by (simp add: cmpEqual_def)

lemma cmpEqual_sym: "cmpEqual p q \<Longrightarrow> cmpEqual q p"
  by (simp add: cmpEqual_def)

lemma cmpEqual_trans: "cmpEqual p q \<Longrightarrow> cmpEqual q r \<Longrightarrow> cmpEqual p r"
  by (simp add: cmpEqual_def)

lemma cmpEqual_Labels_update:
  "cmpEqual (p\<lparr>Labels := l\<rparr>) q = cmpEqual p q"
  "cmpEqual p (q\<lparr>Labels := l\<rparr>) = cmpEqual p q"
  by (simp_all add: cmpEqual_def)

subsection \<open>One pass, call by call\<close>

lemma ReconcileIngress_fetch_failed:
  assumes "FetchSGInfosByID m [sgID] s = (Inl err, s1)"
  shows "ReconcileIngress (recording m) sgID desired opts (s, log) =
           (Some err, (s1, log @ [FetchCall [sgID]]))"
  using assms by (simp add: ReconcileIngress_def recording_def)

lemma ReconcileIngress_fetched:
  assumes "FetchSGInfosByID m [sgID] s = (Inr sgInfoByID, s1)"
  shows "ReconcileIngress (recording m) sgID desired opts (s, log) =
     (let toRevoke = permissionsToRevoke (reconcileSelector opts)
                       (observedIngress sgInfoByID sgID) desired;
          toGrant = permissionsToGrant (observedIngress sgInfoByID sgID) desired;
          (r, s2, log2) =
            (if toRevoke = [] then (None, s1, log @ [FetchCall [sgID]])
             else case RevokeSGIngress m sgID toRevoke s1 of
                    (r, s2) \<Rightarrow> (r, s2, log @ [FetchCall [sgID], RevokeCall sgID toRevoke]))
      in case r of
           Some err \<Rightarrow> (Some err, (s2, log2))
         | None \<Rightarrow>
             if toGrant = [] then (None, (s2, log2))
             else case AuthorizeSGIngress m sgID toGrant s2 of
                    (g, s3) \<Rightarrow> (g, (s3, log2 @ [AuthorizeCall sgID toGrant])))"
  using assms
  by (simp add: ReconcileIngress_def recording_def Let_def reconcileSelector_def
      observedIngress_def permissionsToRevoke_def permissionsToGrant_def
      split: prod.splits option.splits)

text \<open>Recording the calls changes neither the result of a pass nor the manager's state.\<close>

lemma ReconcileIngress_recording:
  "fst (ReconcileIngress (recording m) sgID desired opts (s, log)) =
     fst (ReconcileIngress m sgID desired opts s)"
  "fst (snd (ReconcileIngress (recording m) sgID desired opts (s, log))) =
     snd (ReconcileIngress m sgID desired opts s)"
  by (simp_all add: ReconcileIngress_def recording_def Let_def
      split: prod.splits option.splits sum.splits)

section \<open>Properties of the specification\<close>

text \<open>
  C1. For all permission lists \<open>source\<close> and \<open>target\<close>,
  \<open>diffIPPermissionInfos source target\<close> is the list of exactly those elements of
  \<open>source\<close> for which no element of \<open>target\<close> is equal under the equality policy:
  an element of \<open>source\<close> is in the result if and only if it has no equal element in
  \<open>target\<close>. The policy is structural equality of protocol, port range and peers,
  whatever the labels of the two permissions are.
\<close>

theorem diff_exact:
  "diffIPPermissionInfos source target =
     filter (\<lambda>s. \<not> (\<exists>t \<in> set target. cmpEqual s t)) source \<and>
   (\<forall>p. p \<in> set (diffIPPermissionInfos source target) \<longleftrightarrow>
        p \<in> set source \<and> \<not> (\<exists>t \<in> set target. cmpEqual p t)) \<and>
   (\<forall>s t ls lt. cmpEqual (s\<lparr>Labels := ls\<rparr>) (t\<lparr>Labels := lt\<rparr>) \<longleftrightarrow>
        Protocol s = Protocol t \<and> FromPort s = FromPort t \<and> ToPort s = ToPort t \<and>
        Peers s = Peers t)"
  by (simp add: diff_filter cmpEqual_def)

theorem diff_exact_witness:
  "diffIPPermissionInfos
     [rule ''tcp'' 443 ''0.0.0.0/0'' ownedLabels, rule ''tcp'' 80 ''0.0.0.0/0'' noLabels,
      rule ''tcp'' 22 ''10.0.0.0/8'' noLabels]
     [rule ''tcp'' 80 ''0.0.0.0/0'' ownedLabels] =
   [rule ''tcp'' 443 ''0.0.0.0/0'' ownedLabels, rule ''tcp'' 22 ''10.0.0.0/8'' noLabels]"
  using diff_exact [of
     "[rule ''tcp'' 443 ''0.0.0.0/0'' ownedLabels, rule ''tcp'' 80 ''0.0.0.0/0'' noLabels,
       rule ''tcp'' 22 ''10.0.0.0/8'' noLabels]"
     "[rule ''tcp'' 80 ''0.0.0.0/0'' ownedLabels]"]
  by (simp add: cmpEqual_def rule_def)

subsection \<open>Relabelled copies\<close>

lemma relabel_covers:
  assumes "length ls = length ps" "p \<in> set ps"
  shows "\<exists>t \<in> set (map (\<lambda>(p, l). p\<lparr>Labels := l\<rparr>) (zip ps ls)). cmpEqual p t"
proof -
  from assms obtain i where i: "i < length ps" "ps ! i = p"
    by (auto simp: in_set_conv_nth)
  with assms have "(p, ls ! i) \<in> set (zip ps ls)"
    by (auto simp: in_set_zip intro!: exI[of _ i])
  then have "p\<lparr>Labels := ls ! i\<rparr> \<in> set (map (\<lambda>(p, l). p\<lparr>Labels := l\<rparr>) (zip ps ls))"
    by force
  then show ?thesis
    using cmpEqual_refl cmpEqual_Labels_update(2) by blast
qed

lemma relabel_covered:
  assumes "q \<in> set (map (\<lambda>(p, l). p\<lparr>Labels := l\<rparr>) (zip ps ls))"
  shows "\<exists>t \<in> set ps. cmpEqual q t"
proof -
  from assms obtain p l where "(p, l) \<in> set (zip ps ls)" "q = p\<lparr>Labels := l\<rparr>"
    by auto
  then show ?thesis
    using cmpEqual_refl cmpEqual_Labels_update(1) by (meson set_zip_leftD)
qed

lemma diff_relabel:
  "length ls = length ps \<Longrightarrow>
     diffIPPermissionInfos ps (map (\<lambda>(p, l). p\<lparr>Labels := l\<rparr>) (zip ps ls)) = []"
  "diffIPPermissionInfos (map (\<lambda>(p, l). p\<lparr>Labels := l\<rparr>) (zip ps ls)) ps = []"
  using relabel_covers [of ls ps] relabel_covered [of _ ps ls]
  by (auto simp: diff_filter filter_empty_conv simp del: set_map)

lemma nothing_to_do:
  assumes "FetchSGInfosByID m [sgID] s = (Inr sgInfoByID, s1)"
    and "diffIPPermissionInfos (observedIngress sgInfoByID sgID) desired = []"
    and "diffIPPermissionInfos desired (observedIngress sgInfoByID sgID) = []"
  shows "ReconcileIngress (recording m) sgID desired opts (s, log) =
           (None, (s1, log @ [FetchCall [sgID]]))"
  using assms
  by (simp add: ReconcileIngress_fetched permissionsToGrant_def permissionsToRevoke_def)

text \<open>
  C7. Two permissions that differ only in their \<open>Labels\<close> field are equal for the
  diff. Diffing a list against a copy whose elements carry other labels gives the empty
  list, in both directions. So when the observed permissions are the desired ones with
  other labels (or the other way round), a pass issues the fetch and neither a revoke
  nor a grant call.
\<close>

theorem labels_irrelevant:
  "cmpEqual p (p\<lparr>Labels := l\<rparr>) \<and>
   (length ls = length ps \<longrightarrow>
      diffIPPermissionInfos ps (map (\<lambda>(p, l). p\<lparr>Labels := l\<rparr>) (zip ps ls)) = [] \<and>
      diffIPPermissionInfos (map (\<lambda>(p, l). p\<lparr>Labels := l\<rparr>) (zip ps ls)) ps = []) \<and>
   (FetchSGInfosByID m [sgID] s = (Inr sgInfoByID, s') \<and>
    (length ks = length desired \<and>
       observedIngress sgInfoByID sgID = map (\<lambda>(p, l). p\<lparr>Labels := l\<rparr>) (zip desired ks) \<or>
     length ks = length (observedIngress sgInfoByID sgID) \<and>
       desired = map (\<lambda>(p, l). p\<lparr>Labels := l\<rparr>) (zip (observedIngress sgInfoByID sgID) ks)) \<longrightarrow>
      ReconcileIngress (recording m) sgID desired opts (s, log) =
        (None, (s', log @ [FetchCall [sgID]])))"
proof (intro conjI impI)
  show "cmpEqual p (p\<lparr>Labels := l\<rparr>)"
    by (simp add: cmpEqual_def)
next
  assume "length ls = length ps"
  then show "diffIPPermissionInfos ps (map (\<lambda>(p, l). p\<lparr>Labels := l\<rparr>) (zip ps ls)) = []"
    by (rule diff_relabel(1))
next
  show "diffIPPermissionInfos (map (\<lambda>(p, l). p\<lparr>Labels := l\<rparr>) (zip ps ls)) ps = []"
    by (rule diff_relabel(2))
next
  let ?obs = "observedIngress sgInfoByID sgID"
  assume a: "FetchSGInfosByID m [sgID] s = (Inr sgInfoByID, s') \<and>
    (length ks = length desired \<and>
       ?obs = map (\<lambda>(p, l). p\<lparr>Labels := l\<rparr>) (zip desired ks) \<or>
     length ks = length ?obs \<and>
       desired = map (\<lambda>(p, l). p\<lparr>Labels := l\<rparr>) (zip ?obs ks))"
  then have "diffIPPermissionInfos ?obs desired = [] \<and> diffIPPermissionInfos desired ?obs = []"
    using diff_relabel(1) [of ks desired] diff_relabel(2) [of desired ks]
      diff_relabel(1) [of ks ?obs] diff_relabel(2) [of ?obs ks]
    by auto
  with a show "ReconcileIngress (recording m) sgID desired opts (s, log) =
        (None, (s', log @ [FetchCall [sgID]]))"
    by (simp add: nothing_to_do)
qed

theorem labels_irrelevant_witness:
  "diffIPPermissionInfos [rule ''tcp'' 443 ''0.0.0.0/0'' noLabels]
     [rule ''tcp'' 443 ''0.0.0.0/0'' ownedLabels] = [] \<and>
   ReconcileIngress (recording (memManager always always)) ''sg-1''
     [rule ''tcp'' 443 ''0.0.0.0/0'' noLabels] []
     (oneGroup ''sg-1'' [rule ''tcp'' 443 ''0.0.0.0/0'' ownedLabels], []) =
   (None, (oneGroup ''sg-1'' [rule ''tcp'' 443 ''0.0.0.0/0'' ownedLabels],
           [FetchCall [''sg-1'']]))"
  using labels_irrelevant [where p = "rule ''tcp'' 443 ''0.0.0.0/0'' noLabels"
      and l = ownedLabels and ls = "[ownedLabels]"
      and ps = "[rule ''tcp'' 443 ''0.0.0.0/0'' noLabels]"
      and m = "memManager always always" and sgID = "''sg-1''"
      and s = "oneGroup ''sg-1'' [rule ''tcp'' 443 ''0.0.0.0/0'' ownedLabels]"
      and s' = "oneGroup ''sg-1'' [rule ''tcp'' 443 ''0.0.0.0/0'' ownedLabels]"
      and sgInfoByID = "memInfos [''sg-1'']
                          (oneGroup ''sg-1'' [rule ''tcp'' 443 ''0.0.0.0/0'' ownedLabels])"
      and ks = "[ownedLabels]"
      and desired = "[rule ''tcp'' 443 ''0.0.0.0/0'' noLabels]"
      and opts = "[]" and log = "[]"]
  by (simp add: rule_def memManager_def memFetch_def memInfos_def oneGroup_def
      observedIngress_def indexSGInfo_def)

subsection \<open>Evaluating the examples\<close>

lemmas example_defs =
  rule_def memManager_def memFetch_def memInfos_def memRevoke_def memAuthorize_def
  oneGroup_def observedIngress_def indexSGInfo_def cmpEqual_def
  permissionsToRevoke_def permissionsToGrant_def diffIPPermissionInfos_def
  reconcileSelector_def WithPermissionSelector_def ownedSelector_def noLabels_def
  ownedLabels_def always_def never_def Everything_def

subsection \<open>The calls of a pass\<close>

lemma revoked_append: "revoked (xs @ ys) = revoked xs @ revoked ys"
  by (induction xs rule: revoked.induct) simp_all

lemma granted_append: "granted (xs @ ys) = granted xs @ granted ys"
  by (induction xs rule: granted.induct) simp_all

lemma revoked_pass:
  assumes "FetchSGInfosByID m [sgID] s = (Inr sgInfoByID, s')"
  shows "revoked (snd (snd (ReconcileIngress (recording m) sgID desired opts (s, [])))) =
           permissionsToRevoke (reconcileSelector opts) (observedIngress sgInfoByID sgID) desired"
  by (auto simp add: ReconcileIngress_fetched [OF assms] Let_def revoked_append
      split: prod.splits option.splits)

lemma granted_pass:
  assumes "FetchSGInfosByID m [sgID] s = (Inr sgInfoByID, s')"
    and "fst (ReconcileIngress (recording m) sgID desired opts (s, [])) = None"
  shows "granted (snd (snd (ReconcileIngress (recording m) sgID desired opts (s, [])))) =
           permissionsToGrant (observedIngress sgInfoByID sgID) desired"
  using assms(2)
  by (auto simp add: ReconcileIngress_fetched [OF assms(1)] Let_def granted_append
      split: prod.splits option.splits if_splits)

lemma revoke_calls_pass:
  assumes "FetchSGInfosByID m [sgID] s = (Inr sgInfoByID, s')"
    and "RevokeCall g ps \<in> set (snd (snd (ReconcileIngress (recording m) sgID desired opts (s, []))))"
  shows "g = sgID \<and> ps = permissionsToRevoke (reconcileSelector opts)
                           (observedIngress sgInfoByID sgID) desired \<and> ps \<noteq> []"
  using assms(2)
  by (auto simp add: ReconcileIngress_fetched [OF assms(1)] Let_def
      split: prod.splits option.splits if_splits)

lemma sameRules_diff_empty:
  assumes "sameRules (set xs) (set ys)"
  shows "diffIPPermissionInfos xs ys = []" "diffIPPermissionInfos ys xs = []"
  using assms by (auto simp: sameRules_def diff_filter filter_empty_conv)

text \<open>
  C2. In a pass whose fetch succeeded and whose revoke set and grant set are both
  non-empty, the revoke call is issued first and the grant call after it: when the
  revoke succeeds the calls are the fetch, the revoke, the grant, in this order, and
  the pass returns what the grant returns. Whenever the revoke call returns an error,
  the pass returns that error and its calls end with the revoke: no grant call is made.
\<close>

theorem revoke_before_grant:
  "FetchSGInfosByID m [sgID] s = (Inr sgInfoByID, s') \<longrightarrow>
   (let toRevoke = permissionsToRevoke (reconcileSelector opts)
                     (observedIngress sgInfoByID sgID) desired;
        toGrant = permissionsToGrant (observedIngress sgInfoByID sgID) desired
    in
     (toRevoke \<noteq> [] \<and> toGrant \<noteq> [] \<and>
      RevokeSGIngress m sgID toRevoke s' = (None, sr) \<and>
      AuthorizeSGIngress m sgID toGrant sr = (g, sg) \<longrightarrow>
        ReconcileIngress (recording m) sgID desired opts (s, log) =
          (g, (sg, log @ [FetchCall [sgID], RevokeCall sgID toRevoke,
                          AuthorizeCall sgID toGrant]))) \<and>
     (toRevoke \<noteq> [] \<and> RevokeSGIngress m sgID toRevoke s' = (Some err, sr) \<longrightarrow>
        ReconcileIngress m sgID desired opts s = (Some err, sr) \<and>
        ReconcileIngress (recording m) sgID desired opts (s, log) =
          (Some err, (sr, log @ [FetchCall [sgID], RevokeCall sgID toRevoke]))))"
proof (intro impI)
  let ?R = "permissionsToRevoke (reconcileSelector opts)
              (observedIngress sgInfoByID sgID) desired"
  let ?G = "permissionsToGrant (observedIngress sgInfoByID sgID) desired"
  assume a: "FetchSGInfosByID m [sgID] s = (Inr sgInfoByID, s')"
  have both: "ReconcileIngress (recording m) sgID desired opts (s, log) =
      (g, (sg, log @ [FetchCall [sgID], RevokeCall sgID ?R, AuthorizeCall sgID ?G]))"
    if "?R \<noteq> []" "?G \<noteq> []" "RevokeSGIngress m sgID ?R s' = (None, sr)"
      "AuthorizeSGIngress m sgID ?G sr = (g, sg)"
    using that by (simp add: ReconcileIngress_fetched [OF a] Let_def)
  have failed: "ReconcileIngress (recording m) sgID desired opts (s, log) =
      (Some err, (sr, log @ [FetchCall [sgID], RevokeCall sgID ?R]))"
    if "?R \<noteq> []" "RevokeSGIngress m sgID ?R s' = (Some err, sr)"
    using that by (simp add: ReconcileIngress_fetched [OF a] Let_def)
  have plain: "ReconcileIngress m sgID desired opts s = (Some err, sr)"
    if "?R \<noteq> []" "RevokeSGIngress m sgID ?R s' = (Some err, sr)"
    using failed [OF that] ReconcileIngress_recording [of m sgID desired opts s log]
    by (simp add: prod_eq_iff)
  show "let toRevoke = ?R; toGrant = ?G in
     (toRevoke \<noteq> [] \<and> toGrant \<noteq> [] \<and>
      RevokeSGIngress m sgID toRevoke s' = (None, sr) \<and>
      AuthorizeSGIngress m sgID toGrant sr = (g, sg) \<longrightarrow>
        ReconcileIngress (recording m) sgID desired opts (s, log) =
          (g, (sg, log @ [FetchCall [sgID], RevokeCall sgID toRevoke,
                          AuthorizeCall sgID toGrant]))) \<and>
     (toRevoke \<noteq> [] \<and> RevokeSGIngress m sgID toRevoke s' = (Some err, sr) \<longrightarrow>
        ReconcileIngress m sgID desired opts s = (Some err, sr) \<and>
        ReconcileIngress (recording m) sgID desired opts (s, log) =
          (Some err, (sr, log @ [FetchCall [sgID], RevokeCall sgID toRevoke])))"
    unfolding Let_def using both failed plain by blast
qed

theorem revoke_before_grant_witness:
  "ReconcileIngress (recording (memManager always always)) ''sg-1''
     [rule ''tcp'' 443 ''10.0.0.0/8'' noLabels] []
     (oneGroup ''sg-1'' [rule ''tcp'' 443 ''0.0.0.0/0'' noLabels], []) =
   (None, (oneGroup ''sg-1'' [rule ''tcp'' 443 ''10.0.0.0/8'' noLabels],
           [FetchCall [''sg-1''],
            RevokeCall ''sg-1'' [rule ''tcp'' 443 ''0.0.0.0/0'' noLabels],
            AuthorizeCall ''sg-1'' [rule ''tcp'' 443 ''10.0.0.0/8'' noLabels]])) \<and>
   ReconcileIngress (recording (memManager never always)) ''sg-1''
     [rule ''tcp'' 443 ''10.0.0.0/8'' noLabels] []
     (oneGroup ''sg-1'' [rule ''tcp'' 443 ''0.0.0.0/0'' noLabels], []) =
   (Some (Error ''revoke refused''),
    (oneGroup ''sg-1'' [rule ''tcp'' 443 ''0.0.0.0/0'' noLabels],
     [FetchCall [''sg-1''],
      RevokeCall ''sg-1'' [rule ''tcp'' 443 ''0.0.0.0/0'' noLabels]]))"
  using revoke_before_grant [where m = "memManager always always" and sgID = "''sg-1''"
      and s = "oneGroup ''sg-1'' [rule ''tcp'' 443 ''0.0.0.0/0'' noLabels]"
      and s' = "oneGroup ''sg-1'' [rule ''tcp'' 443 ''0.0.0.0/0'' noLabels]"
      and sgInfoByID = "memInfos [''sg-1'']
                          (oneGroup ''sg-1'' [rule ''tcp'' 443 ''0.0.0.0/0'' noLabels])"
      and desired = "[rule ''tcp'' 443 ''10.0.0.0/8'' noLabels]"
      and opts = "[]" and log = "[]"
      and sr = "oneGroup ''sg-1'' []" and g = None
      and sg = "oneGroup ''sg-1'' [rule ''tcp'' 443 ''10.0.0.0/8'' noLabels]"]
    revoke_before_grant [where m = "memManager never always" and sgID = "''sg-1''"
      and s = "oneGroup ''sg-1'' [rule ''tcp'' 443 ''0.0.0.0/0'' noLabels]"
      and s' = "oneGroup ''sg-1'' [rule ''tcp'' 443 ''0.0.0.0/0'' noLabels]"
      and sgInfoByID = "memInfos [''sg-1'']
                          (oneGroup ''sg-1'' [rule ''tcp'' 443 ''0.0.0.0/0'' noLabels])"
      and desired = "[rule ''tcp'' 443 ''10.0.0.0/8'' noLabels]"
      and opts = "[]" and log = "[]"
      and sr = "oneGroup ''sg-1'' [rule ''tcp'' 443 ''0.0.0.0/0'' noLabels]"
      and err = "Error ''revoke refused''"]
  by (simp add: example_defs Let_def)

text \<open>
  C3. In a pass whose fetch succeeded, the permissions handed to revoke are exactly the
  observed permissions that have no equal in the desired list and whose labels the
  selector matches; every revoke call of the pass is for the reconciled group and
  carries exactly these; an observed permission whose labels the selector does not
  match is never revoked. The instance after it is the scenario observed = {A (owned),
  B (unowned)}, desired = {}, selector "owned": the pass revokes A and the group keeps B.
\<close>

theorem selector_containment:
  "FetchSGInfosByID m [sgID] s = (Inr sgInfoByID, s') \<longrightarrow>
   (let calls = snd (snd (ReconcileIngress (recording m) sgID desired opts (s, [])));
        observed = observedIngress sgInfoByID sgID;
        sel = reconcileSelector opts
    in revoked calls =
         filter (\<lambda>p. sel (Labels p) \<and> \<not> (\<exists>d \<in> set desired. cmpEqual p d)) observed \<and>
       (\<forall>g ps. RevokeCall g ps \<in> set calls \<longrightarrow> g = sgID \<and> ps = revoked calls) \<and>
       (\<forall>p \<in> set observed. \<not> sel (Labels p) \<longrightarrow> p \<notin> set (revoked calls)))"
proof (intro impI)
  assume a: "FetchSGInfosByID m [sgID] s = (Inr sgInfoByID, s')"
  show "let calls = snd (snd (ReconcileIngress (recording m) sgID desired opts (s, [])));
        observed = observedIngress sgInfoByID sgID;
        sel = reconcileSelector opts
    in revoked calls =
         filter (\<lambda>p. sel (Labels p) \<and> \<not> (\<exists>d \<in> set desired. cmpEqual p d)) observed \<and>
       (\<forall>g ps. RevokeCall g ps \<in> set calls \<longrightarrow> g = sgID \<and> ps = revoked calls) \<and>
       (\<forall>p \<in> set observed. \<not> sel (Labels p) \<longrightarrow> p \<notin> set (revoked calls))"
    unfolding Let_def revoked_pass [OF a]
    using revoke_calls_pass [OF a]
    by (auto simp: permissionsToRevoke_filter)
qed

theorem selector_containment_witness:
  "ReconcileIngress (recording (memManager always always)) ''sg-1'' []
     [WithPermissionSelector ownedSelector]
     (oneGroup ''sg-1'' [rule ''tcp'' 443 ''0.0.0.0/0'' ownedLabels,
                         rule ''tcp'' 22 ''10.0.0.0/8'' noLabels], []) =
   (None, (oneGroup ''sg-1'' [rule ''tcp'' 22 ''10.0.0.0/8'' noLabels],
           [FetchCall [''sg-1''],
            RevokeCall ''sg-1'' [rule ''tcp'' 443 ''0.0.0.0/0'' ownedLabels]]))"
  using selector_containment [where m = "memManager always always" and sgID = "''sg-1''"
      and s = "oneGroup ''sg-1'' [rule ''tcp'' 443 ''0.0.0.0/0'' ownedLabels,
                                  rule ''tcp'' 22 ''10.0.0.0/8'' noLabels]"
      and s' = "oneGroup ''sg-1'' [rule ''tcp'' 443 ''0.0.0.0/0'' ownedLabels,
                                   rule ''tcp'' 22 ''10.0.0.0/8'' noLabels]"
      and sgInfoByID = "memInfos [''sg-1'']
                          (oneGroup ''sg-1'' [rule ''tcp'' 443 ''0.0.0.0/0'' ownedLabels,
                                              rule ''tcp'' 22 ''10.0.0.0/8'' noLabels])"
      and desired = "[]" and opts = "[WithPermissionSelector ownedSelector]"]
  by (simp add: example_defs Let_def ReconcileIngress_def recording_def)

text \<open>
  C5. If the fetch of the observed state fails, \<open>ReconcileIngress\<close> returns the
  error of the fetch as it is, the manager is left in the state the fetch returned, and
  the only call of the pass is the fetch: no revoke and no grant call.
\<close>

theorem fetch_failure_aborts:
  "FetchSGInfosByID m [sgID] s = (Inl err, s') \<longrightarrow>
     ReconcileIngress m sgID desired opts s = (Some err, s') \<and>
     ReconcileIngress (recording m) sgID desired opts (s, log) =
       (Some err, (s', log @ [FetchCall [sgID]]))"
  by (simp add: ReconcileIngress_fetch_failed) (simp add: ReconcileIngress_def)

theorem fetch_failure_aborts_witness:
  "ReconcileIngress (recording (memManager always always)) ''sg-2''
     [rule ''tcp'' 443 ''0.0.0.0/0'' noLabels] []
     (oneGroup ''sg-1'' [rule ''tcp'' 22 ''0.0.0.0/0'' noLabels], []) =
   (Some (Error ''security group not found''),
    (oneGroup ''sg-1'' [rule ''tcp'' 22 ''0.0.0.0/0'' noLabels], [FetchCall [''sg-2'']]))"
  using fetch_failure_aborts [where m = "memManager always always" and sgID = "''sg-2''"
      and s = "oneGroup ''sg-1'' [rule ''tcp'' 22 ''0.0.0.0/0'' noLabels]"
      and err = "Error ''security group not found''"
      and s' = "oneGroup ''sg-1'' [rule ''tcp'' 22 ''0.0.0.0/0'' noLabels]"
      and desired = "[rule ''tcp'' 443 ''0.0.0.0/0'' noLabels]" and opts = "[]"
      and log = "[]"]
  by (simp add: memManager_def memFetch_def oneGroup_def)

text \<open>
  C6. In a pass whose fetch succeeded, if the computed revoke set and the computed
  grant set are both empty, and in particular if the observed permissions equal the
  desired ones under the equality policy, \<open>ReconcileIngress\<close> returns success, the
  manager is left in the state the fetch returned, and the only call is the fetch.
\<close>

theorem noop_minimality:
  "FetchSGInfosByID m [sgID] s = (Inr sgInfoByID, s') \<and>
   (permissionsToRevoke (reconcileSelector opts) (observedIngress sgInfoByID sgID) desired = [] \<and>
    permissionsToGrant (observedIngress sgInfoByID sgID) desired = [] \<or>
    sameRules (set (observedIngress sgInfoByID sgID)) (set desired)) \<longrightarrow>
     ReconcileIngress m sgID desired opts s = (None, s') \<and>
     ReconcileIngress (recording m) sgID desired opts (s, log) =
       (None, (s', log @ [FetchCall [sgID]]))"
proof (intro impI)
  let ?obs = "observedIngress sgInfoByID sgID"
  assume a: "FetchSGInfosByID m [sgID] s = (Inr sgInfoByID, s') \<and>
   (permissionsToRevoke (reconcileSelector opts) ?obs desired = [] \<and>
    permissionsToGrant ?obs desired = [] \<or> sameRules (set ?obs) (set desired))"
  then have "permissionsToRevoke (reconcileSelector opts) ?obs desired = [] \<and>
    permissionsToGrant ?obs desired = []"
    using sameRules_diff_empty [of ?obs desired]
    by (auto simp: permissionsToRevoke_def permissionsToGrant_def)
  with a have r: "ReconcileIngress (recording m) sgID desired opts (s, log) =
       (None, (s', log @ [FetchCall [sgID]]))"
    by (simp add: ReconcileIngress_fetched)
  then have "ReconcileIngress m sgID desired opts s = (None, s')"
    using ReconcileIngress_recording [of m sgID desired opts s log]
    by (simp add: prod_eq_iff)
  with r show "ReconcileIngress m sgID desired opts s = (None, s') \<and>
     ReconcileIngress (recording m) sgID desired opts (s, log) =
       (None, (s', log @ [FetchCall [sgID]]))"
    by simp
qed

theorem noop_minimality_witness:
  "ReconcileIngress (recording (memManager always always)) ''sg-1''
     [rule ''tcp'' 443 ''0.0.0.0/0'' noLabels] []
     (oneGroup ''sg-1'' [rule ''tcp'' 443 ''0.0.0.0/0'' ownedLabels], []) =
   (None, (oneGroup ''sg-1'' [rule ''tcp'' 443 ''0.0.0.0/0'' ownedLabels],
           [FetchCall [''sg-1'']])) \<and>
   ReconcileIngress (recording (memManager always always)) ''sg-1''
     [] [WithPermissionSelector ownedSelector]
     (oneGroup ''sg-1'' [rule ''tcp'' 22 ''10.0.0.0/8'' noLabels], []) =
   (None, (oneGroup ''sg-1'' [rule ''tcp'' 22 ''10.0.0.0/8'' noLabels],
           [FetchCall [''sg-1'']]))"
  using noop_minimality [where m = "memManager always always" and sgID = "''sg-1''"
      and s = "oneGroup ''sg-1'' [rule ''tcp'' 443 ''0.0.0.0/0'' ownedLabels]"
      and s' = "oneGroup ''sg-1'' [rule ''tcp'' 443 ''0.0.0.0/0'' ownedLabels]"
      and sgInfoByID = "memInfos [''sg-1'']
                          (oneGroup ''sg-1'' [rule ''tcp'' 443 ''0.0.0.0/0'' ownedLabels])"
      and desired = "[rule ''tcp'' 443 ''0.0.0.0/0'' noLabels]"
      and opts = "[]" and log = "[]"]
    noop_minimality [where m = "memManager always always" and sgID = "''sg-1''"
      and s = "oneGroup ''sg-1'' [rule ''tcp'' 22 ''10.0.0.0/8'' noLabels]"
      and s' = "oneGroup ''sg-1'' [rule ''tcp'' 22 ''10.0.0.0/8'' noLabels]"
      and sgInfoByID = "memInfos [''sg-1'']
                          (oneGroup ''sg-1'' [rule ''tcp'' 22 ''10.0.0.0/8'' noLabels])"
      and desired = "[]"
      and opts = "[WithPermissionSelector ownedSelector]" and log = "[]"]
  by (simp add: rule_def memManager_def memFetch_def memInfos_def oneGroup_def
      observedIngress_def indexSGInfo_def sameRules_def cmpEqual_def
      permissionsToRevoke_def permissionsToGrant_def diffIPPermissionInfos_def
      reconcileSelector_def WithPermissionSelector_def ownedSelector_def noLabels_def)

text \<open>
  C9. \<open>Validate\<close> returns nil if and only if the cluster name is non-empty and the
  runtime scheme is non-nil. It returns the cluster-name error for an empty cluster
  name, the scheme error for a nil scheme with a non-empty name, an error for every
  nil scheme, and two configurations that agree on the cluster name and the scheme
  get the same result: no other field is inspected.
\<close>

theorem Validate_iff:
  "(Validate cfg = None \<longleftrightarrow> ClusterName cfg \<noteq> [] \<and> Scheme (RuntimeConfig cfg) \<noteq> None) \<and>
   (ClusterName cfg = [] \<longrightarrow>
      Validate cfg = Some (Error ''Kubernetes cluster name must be specified'')) \<and>
   (ClusterName cfg \<noteq> [] \<and> Scheme (RuntimeConfig cfg) = None \<longrightarrow>
      Validate cfg = Some (Error ''Controller runtime scheme not initialzied'')) \<and>
   (Scheme (RuntimeConfig cfg) = None \<longrightarrow> Validate cfg \<noteq> None) \<and>
   (ClusterName cfg' = ClusterName cfg \<and>
    Scheme (RuntimeConfig cfg') = Scheme (RuntimeConfig cfg) \<longrightarrow>
      Validate cfg' = Validate cfg)"
  by (simp add: Validate_def)

theorem Validate_iff_witness:
  "Validate (exampleConfig ''prod'' (Some ()) ''info'') = None \<and>
   Validate (exampleConfig [] (Some ()) ''info'') =
     Some (Error ''Kubernetes cluster name must be specified'') \<and>
   Validate (exampleConfig ''prod'' None ''info'') =
     Some (Error ''Controller runtime scheme not initialzied'') \<and>
   Validate (exampleConfig ''prod'' None ''debug'') =
     Validate (exampleConfig ''prod'' None ''info'')"
  using Validate_iff [of "exampleConfig ''prod'' (Some ()) ''info''"
                         "exampleConfig ''prod'' (Some ()) ''info''"]
    Validate_iff [of "exampleConfig [] (Some ()) ''info''"
                     "exampleConfig [] (Some ()) ''info''"]
    Validate_iff [of "exampleConfig ''prod'' None ''info''"
                     "exampleConfig ''prod'' None ''debug''"]
  by (simp add: exampleConfig_def)

subsection \<open>What a successful pass leaves\<close>

lemma passResult_success:
  assumes f: "FetchSGInfosByID m [sgID] s = (Inr sgInfoByID, s')"
    and ok: "fst (ReconcileIngress (recording m) sgID desired opts (s, [])) = None"
  shows "passResult (observedIngress sgInfoByID sgID)
           (snd (snd (ReconcileIngress (recording m) sgID desired opts (s, [])))) =
         {p \<in> set (observedIngress sgInfoByID sgID).
            (\<exists>d \<in> set desired. cmpEqual p d) \<or> \<not> reconcileSelector opts (Labels p)} \<union>
         {d \<in> set desired. \<not> (\<exists>p \<in> set (observedIngress sgInfoByID sgID). cmpEqual d p)}"
  unfolding passResult_def revoked_pass [OF f] granted_pass [OF f ok]
  by (auto simp: permissionsToRevoke_filter permissionsToGrant_filter)

text \<open>
  C4 (as amended). After every successful pass, the union of (observed minus revoked)
  and granted equals, under the equality policy, the whole desired state plus the
  out-of-scope observed entries, and every out-of-scope observed entry is in it
  unchanged. This is the desired state restricted to the selector's scope plus the
  out-of-scope observed entries whenever every desired permission is in the selector's
  scope. The grant set is the unfiltered \<open>diffIPPermissionInfos desired observed\<close>:
  every desired permission with no equal among the observed ones is granted, whatever
  the selector.
\<close>

theorem pass_result:
  "FetchSGInfosByID m [sgID] s = (Inr sgInfoByID, s') \<and>
   fst (ReconcileIngress (recording m) sgID desired opts (s, [])) = None \<longrightarrow>
   (let calls = snd (snd (ReconcileIngress (recording m) sgID desired opts (s, [])));
        observed = observedIngress sgInfoByID sgID;
        sel = reconcileSelector opts;
        outOfScope = {p \<in> set observed. \<not> sel (Labels p)}
    in sameRules (passResult observed calls) (set desired \<union> outOfScope) \<and>
       outOfScope \<subseteq> passResult observed calls \<and>
       ((\<forall>d \<in> set desired. sel (Labels d)) \<longrightarrow>
          sameRules (passResult observed calls) (scopedTarget sel observed desired)) \<and>
       granted calls = diffIPPermissionInfos desired observed \<and>
       granted calls = filter (\<lambda>d. \<not> (\<exists>p \<in> set observed. cmpEqual d p)) desired)"
proof (intro impI)
  let ?obs = "observedIngress sgInfoByID sgID"
  let ?calls = "snd (snd (ReconcileIngress (recording m) sgID desired opts (s, [])))"
  let ?sel = "reconcileSelector opts"
  let ?out = "{p \<in> set ?obs. \<not> ?sel (Labels p)}"
  assume a: "FetchSGInfosByID m [sgID] s = (Inr sgInfoByID, s') \<and>
    fst (ReconcileIngress (recording m) sgID desired opts (s, [])) = None"
  then have f: "FetchSGInfosByID m [sgID] s = (Inr sgInfoByID, s')"
    and ok: "fst (ReconcileIngress (recording m) sgID desired opts (s, [])) = None"
    by simp_all
  note res = passResult_success [OF f ok]
  have g: "granted ?calls = diffIPPermissionInfos desired ?obs"
    using granted_pass [OF f ok] by (simp add: permissionsToGrant_def)
  have same: "sameRules (passResult ?obs ?calls) (set desired \<union> ?out)"
    unfolding res sameRules_def
  proof (intro conjI ballI)
    fix a
    assume "a \<in> {p \<in> set ?obs. (\<exists>d \<in> set desired. cmpEqual p d) \<or> \<not> ?sel (Labels p)} \<union>
                 {d \<in> set desired. \<not> (\<exists>p \<in> set ?obs. cmpEqual d p)}"
    then show "\<exists>b \<in> set desired \<union> ?out. cmpEqual a b"
      using cmpEqual_refl by blast
  next
    fix b
    assume "b \<in> set desired \<union> ?out"
    then show "\<exists>a \<in> {p \<in> set ?obs. (\<exists>d \<in> set desired. cmpEqual p d) \<or> \<not> ?sel (Labels p)} \<union>
                 {d \<in> set desired. \<not> (\<exists>p \<in> set ?obs. cmpEqual d p)}. cmpEqual b a"
      using cmpEqual_refl cmpEqual_sym by blast
  qed
  have keep: "?out \<subseteq> passResult ?obs ?calls"
    unfolding res by blast
  have scoped: "sameRules (passResult ?obs ?calls) (scopedTarget ?sel ?obs desired)"
    if "\<forall>d \<in> set desired. ?sel (Labels d)"
  proof -
    from that have "scopedTarget ?sel ?obs desired = set desired \<union> ?out"
      by (auto simp: scopedTarget_def)
    with same show ?thesis
      by simp
  qed
  show "let calls = ?calls; observed = ?obs; sel = ?sel;
        outOfScope = {p \<in> set observed. \<not> sel (Labels p)}
    in sameRules (passResult observed calls) (set desired \<union> outOfScope) \<and>
       outOfScope \<subseteq> passResult observed calls \<and>
       ((\<forall>d \<in> set desired. sel (Labels d)) \<longrightarrow>
          sameRules (passResult observed calls) (scopedTarget sel observed desired)) \<and>
       granted calls = diffIPPermissionInfos desired observed \<and>
       granted calls = filter (\<lambda>d. \<not> (\<exists>p \<in> set observed. cmpEqual d p)) desired"
    unfolding Let_def using same keep scoped g by (simp add: diff_filter)
qed

theorem pass_result_witness:
  "ReconcileIngress (recording (memManager always always)) ''sg-1''
     [rule ''tcp'' 443 ''10.0.0.0/8'' ownedLabels] [WithPermissionSelector ownedSelector]
     (oneGroup ''sg-1'' [rule ''tcp'' 443 ''0.0.0.0/0'' ownedLabels,
                         rule ''tcp'' 22 ''10.0.0.0/8'' noLabels], []) =
   (None, (oneGroup ''sg-1'' [rule ''tcp'' 22 ''10.0.0.0/8'' noLabels,
                              rule ''tcp'' 443 ''10.0.0.0/8'' ownedLabels],
           [FetchCall [''sg-1''],
            RevokeCall ''sg-1'' [rule ''tcp'' 443 ''0.0.0.0/0'' ownedLabels],
            AuthorizeCall ''sg-1'' [rule ''tcp'' 443 ''10.0.0.0/8'' ownedLabels]])) \<and>
   sameRules
     (passResult [rule ''tcp'' 443 ''0.0.0.0/0'' ownedLabels,
                  rule ''tcp'' 22 ''10.0.0.0/8'' noLabels]
        [FetchCall [''sg-1''],
         RevokeCall ''sg-1'' [rule ''tcp'' 443 ''0.0.0.0/0'' ownedLabels],
         AuthorizeCall ''sg-1'' [rule ''tcp'' 443 ''10.0.0.0/8'' ownedLabels]])
     (scopedTarget ownedSelector
        [rule ''tcp'' 443 ''0.0.0.0/0'' ownedLabels, rule ''tcp'' 22 ''10.0.0.0/8'' noLabels]
        [rule ''tcp'' 443 ''10.0.0.0/8'' ownedLabels])"
proof -
  have run: "ReconcileIngress (recording (memManager always always)) ''sg-1''
     [rule ''tcp'' 443 ''10.0.0.0/8'' ownedLabels] [WithPermissionSelector ownedSelector]
     (oneGroup ''sg-1'' [rule ''tcp'' 443 ''0.0.0.0/0'' ownedLabels,
                         rule ''tcp'' 22 ''10.0.0.0/8'' noLabels], []) =
   (None, (oneGroup ''sg-1'' [rule ''tcp'' 22 ''10.0.0.0/8'' noLabels,
                              rule ''tcp'' 443 ''10.0.0.0/8'' ownedLabels],
           [FetchCall [''sg-1''],
            RevokeCall ''sg-1'' [rule ''tcp'' 443 ''0.0.0.0/0'' ownedLabels],
            AuthorizeCall ''sg-1'' [rule ''tcp'' 443 ''10.0.0.0/8'' ownedLabels]]))"
    by (simp add: example_defs ReconcileIngress_def recording_def Let_def)
  have sel: "reconcileSelector [WithPermissionSelector ownedSelector] = ownedSelector"
    by (simp add: reconcileSelector_def WithPermissionSelector_def)
  have obs: "observedIngress
       (memInfos [''sg-1'']
          (oneGroup ''sg-1'' [rule ''tcp'' 443 ''0.0.0.0/0'' ownedLabels,
                              rule ''tcp'' 22 ''10.0.0.0/8'' noLabels])) ''sg-1'' =
     [rule ''tcp'' 443 ''0.0.0.0/0'' ownedLabels, rule ''tcp'' 22 ''10.0.0.0/8'' noLabels]"
    by (simp add: observedIngress_def indexSGInfo_def memInfos_def oneGroup_def)
  have fetch: "FetchSGInfosByID (memManager always always) [''sg-1'']
       (oneGroup ''sg-1'' [rule ''tcp'' 443 ''0.0.0.0/0'' ownedLabels,
                           rule ''tcp'' 22 ''10.0.0.0/8'' noLabels]) =
     (Inr (memInfos [''sg-1'']
             (oneGroup ''sg-1'' [rule ''tcp'' 443 ''0.0.0.0/0'' ownedLabels,
                                 rule ''tcp'' 22 ''10.0.0.0/8'' noLabels])),
      oneGroup ''sg-1'' [rule ''tcp'' 443 ''0.0.0.0/0'' ownedLabels,
                         rule ''tcp'' 22 ''10.0.0.0/8'' noLabels])"
    by (simp add: memManager_def memFetch_def oneGroup_def)
  have scope: "\<forall>d \<in> set [rule ''tcp'' 443 ''10.0.0.0/8'' ownedLabels].
      reconcileSelector [WithPermissionSelector ownedSelector] (Labels d)"
    by (simp add: sel rule_def ownedSelector_def ownedLabels_def)
  have ok: "fst (ReconcileIngress (recording (memManager always always)) ''sg-1''
       [rule ''tcp'' 443 ''10.0.0.0/8'' ownedLabels] [WithPermissionSelector ownedSelector]
       (oneGroup ''sg-1'' [rule ''tcp'' 443 ''0.0.0.0/0'' ownedLabels,
                           rule ''tcp'' 22 ''10.0.0.0/8'' noLabels], [])) = None"
    unfolding run by (rule fst_conv)
  note result = pass_result [unfolded Let_def, rule_format,
      OF conjI [OF fetch ok], THEN conjunct2, THEN conjunct2, THEN conjunct1, THEN mp,
      OF scope]
  show ?thesis
    using run result [unfolded run sel obs snd_conv] by (rule conjI)
qed

text \<open>
  C4, without the amendment: the result of a successful pass is not always the desired
  state restricted to the selector's scope plus the out-of-scope observed entries. With
  nothing observed, one desired permission without labels and the selector "owned", the
  pass grants the permission, while the desired state restricted to the selector's
  scope is empty.
\<close>

theorem scoped_result_counterexample:
  "ReconcileIngress (recording (memManager always always)) ''sg-1''
     [rule ''tcp'' 443 ''10.0.0.0/8'' noLabels] [WithPermissionSelector ownedSelector]
     (oneGroup ''sg-1'' [], []) =
   (None, (oneGroup ''sg-1'' [rule ''tcp'' 443 ''10.0.0.0/8'' noLabels],
           [FetchCall [''sg-1''],
            AuthorizeCall ''sg-1'' [rule ''tcp'' 443 ''10.0.0.0/8'' noLabels]])) \<and>
   passResult []
     [FetchCall [''sg-1''], AuthorizeCall ''sg-1'' [rule ''tcp'' 443 ''10.0.0.0/8'' noLabels]] =
   {rule ''tcp'' 443 ''10.0.0.0/8'' noLabels} \<and>
   scopedTarget ownedSelector [] [rule ''tcp'' 443 ''10.0.0.0/8'' noLabels] = {} \<and>
   \<not> sameRules
       (passResult []
          [FetchCall [''sg-1''],
           AuthorizeCall ''sg-1'' [rule ''tcp'' 443 ''10.0.0.0/8'' noLabels]])
       (scopedTarget ownedSelector [] [rule ''tcp'' 443 ''10.0.0.0/8'' noLabels])"
  by (simp add: example_defs ReconcileIngress_def recording_def Let_def passResult_def
      scopedTarget_def sameRules_def)

subsection \<open>Passes on the in-memory manager\<close>

lemma converged_revoke:
  "permissionsToRevoke sel
     (diffIPPermissionInfos observed (permissionsToRevoke sel observed desired) @
      permissionsToGrant observed desired) desired = []"
  by (auto simp: permissionsToRevoke_filter permissionsToGrant_filter diff_filter
      filter_empty_conv intro: cmpEqual_refl)

lemma converged_grant:
  "permissionsToGrant
     (diffIPPermissionInfos observed (permissionsToRevoke sel observed desired) @
      permissionsToGrant observed desired) desired = []"
proof -
  let ?R = "permissionsToRevoke sel observed desired"
  let ?G = "permissionsToGrant observed desired"
  have "\<exists>p \<in> set (diffIPPermissionInfos observed ?R @ ?G). cmpEqual d p"
    if d: "d \<in> set desired" for d
  proof (cases "\<exists>p \<in> set observed. cmpEqual d p")
    case False
    with d have "d \<in> set ?G"
      by (simp add: permissionsToGrant_filter)
    then show ?thesis
      using cmpEqual_refl by auto
  next
    case True
    then obtain p where p: "p \<in> set observed" "cmpEqual d p"
      by blast
    have "\<not> cmpEqual p r" if "r \<in> set ?R" for r
    proof
      assume "cmpEqual p r"
      with p(2) have "cmpEqual d r"
        by (rule cmpEqual_trans)
      then have "cmpEqual r d"
        by (rule cmpEqual_sym)
      with d that show False
        by (auto simp: permissionsToRevoke_filter)
    qed
    with p(1) have "p \<in> set (diffIPPermissionInfos observed ?R)"
      by (auto simp: diff_filter)
    with p(2) show ?thesis
      by auto
  qed
  then show ?thesis
    by (auto simp: permissionsToGrant_filter [of "_ @ _"] filter_empty_conv)
qed

lemma diff_nil: "diffIPPermissionInfos xs [] = xs"
  by (simp add: diff_filter)

lemma mem_fetch_known:
  assumes "s sgID = Some ingress"
  shows "FetchSGInfosByID (memManager revokeOK grantOK) [sgID] s =
           (Inr (memInfos [sgID] s), s)"
    and "observedIngress (memInfos [sgID] s) sgID = ingress"
  using assms
  by (simp_all add: memManager_def memFetch_def memInfos_def observedIngress_def
      indexSGInfo_def)

lemma mem_fetch_unknown:
  assumes "s sgID = None"
  shows "FetchSGInfosByID (memManager revokeOK grantOK) [sgID] s =
           (Inl (Error ''security group not found''), s)"
  using assms by (simp add: memManager_def memFetch_def)

text \<open>
  A pass on the in-memory manager that returns success leaves the group with the
  observed permissions minus the revoked ones, followed by the granted ones.
\<close>

lemma mem_pass_success:
  assumes known: "s sgID = Some ingress"
    and ok: "ReconcileIngress (recording (memManager revokeOK grantOK)) sgID desired opts
               (s, log) = (None, (t, log'))"
  shows "t = s(sgID \<mapsto>
           diffIPPermissionInfos ingress
             (permissionsToRevoke (reconcileSelector opts) ingress desired) @
           permissionsToGrant ingress desired)"
proof -
  let ?R = "permissionsToRevoke (reconcileSelector opts) ingress desired"
  let ?G = "permissionsToGrant ingress desired"
  have same: "s(sgID \<mapsto> ingress) = s"
    using known by (simp add: fun_upd_idem)
  have f: "FetchSGInfosByID (memManager revokeOK grantOK) [sgID] s =
             (Inr (memInfos [sgID] s), s)"
    using known by (rule mem_fetch_known(1))
  have o: "observedIngress (memInfos [sgID] s) sgID = ingress"
    using known by (rule mem_fetch_known(2))
  from ok show ?thesis
    unfolding ReconcileIngress_fetched [OF f] o Let_def
    using known same
    by (cases "?R = []"; cases "?G = []")
      (auto simp: memManager_def memRevoke_def memAuthorize_def diff_nil
        split: if_splits)
qed

lemma mem_second_pass:
  assumes known: "s sgID = Some ingress"
    and ok: "ReconcileIngress (memManager revokeOK grantOK) sgID desired opts s = (None, t)"
  shows "ReconcileIngress (recording (memManager revokeOK grantOK)) sgID desired opts (t, []) =
           (None, (t, [FetchCall [sgID]]))"
proof -
  let ?M = "memManager revokeOK grantOK"
  let ?R = "permissionsToRevoke (reconcileSelector opts) ingress desired"
  let ?G = "permissionsToGrant ingress desired"
  let ?after = "diffIPPermissionInfos ingress ?R @ ?G"
  have "ReconcileIngress (recording ?M) sgID desired opts (s, []) =
          (None, (t, snd (snd (ReconcileIngress (recording ?M) sgID desired opts (s, [])))))"
    using ok ReconcileIngress_recording [of ?M sgID desired opts s "[]"]
    by (simp add: prod_eq_iff)
  with known have t: "t = s(sgID \<mapsto> ?after)"
    by (rule mem_pass_success)
  then have k: "t sgID = Some ?after"
    by simp
  have f: "FetchSGInfosByID ?M [sgID] t = (Inr (memInfos [sgID] t), t)"
    using k by (rule mem_fetch_known(1))
  have o: "observedIngress (memInfos [sgID] t) sgID = ?after"
    using k by (rule mem_fetch_known(2))
  show ?thesis
    unfolding ReconcileIngress_fetched [OF f] o Let_def
    by (simp add: converged_revoke converged_grant)
qed

lemma mem_unknown_pass:
  assumes "s sgID = None"
  shows "ReconcileIngress (memManager revokeOK grantOK) sgID desired opts s =
           (Some (Error ''security group not found''), s)"
    and "ReconcileIngress (recording (memManager revokeOK grantOK)) sgID desired opts (s, log) =
           (Some (Error ''security group not found''), (s, log @ [FetchCall [sgID]]))"
proof -
  have f: "FetchSGInfosByID (memManager revokeOK grantOK) [sgID] s =
             (Inl (Error ''security group not found''), s)"
    using assms by (rule mem_fetch_unknown)
  show "ReconcileIngress (recording (memManager revokeOK grantOK)) sgID desired opts (s, log) =
           (Some (Error ''security group not found''), (s, log @ [FetchCall [sgID]]))"
    using f by (rule ReconcileIngress_fetch_failed)
  show "ReconcileIngress (memManager revokeOK grantOK) sgID desired opts s =
           (Some (Error ''security group not found''), s)"
    using f by (simp add: ReconcileIngress_def)
qed

lemma mem_always_success:
  assumes known: "s sgID = Some ingress"
  shows "fst (ReconcileIngress (memManager always always) sgID desired opts s) = None"
proof -
  have f: "FetchSGInfosByID (memManager always always) [sgID] s =
             (Inr (memInfos [sgID] s), s)"
    using known by (rule mem_fetch_known(1))
  have "fst (ReconcileIngress (recording (memManager always always)) sgID desired opts (s, [])) = None"
    unfolding ReconcileIngress_fetched [OF f] Let_def
    using known
    by (simp add: memManager_def memRevoke_def memAuthorize_def always_def
        mem_fetch_known(2) [of s sgID ingress] split: prod.splits)
  then show ?thesis
    by (simp add: ReconcileIngress_recording)
qed

text \<open>
  C8 (as amended). On an in-memory manager, whose state only the reconciler's revoke
  and grant calls change, for every state, desired permission list and options: if the
  first run of \<open>ReconcileIngress\<close> returns success, the second run in a row issues
  the fetch only, so zero revoke and zero grant calls. For the manager that refuses no
  call this holds without the condition.
\<close>

theorem idempotent_after_success:
  "(fst (ReconcileIngress (memManager revokeOK grantOK) sgID desired opts s) = None \<longrightarrow>
      secondRunCalls (memManager revokeOK grantOK) sgID desired opts s = [FetchCall [sgID]]) \<and>
   secondRunCalls (memManager always always) sgID desired opts s = [FetchCall [sgID]]"
proof -
  have succ: "secondRunCalls (memManager rOK gOK) sgID desired opts s = [FetchCall [sgID]]"
    if first: "fst (ReconcileIngress (memManager rOK gOK) sgID desired opts s) = None"
    for rOK gOK
  proof (cases "s sgID")
    case None
    with first show ?thesis
      by (simp add: mem_unknown_pass(1))
  next
    case (Some ingress)
    obtain t where t: "ReconcileIngress (memManager rOK gOK) sgID desired opts s = (None, t)"
      using first by (cases "ReconcileIngress (memManager rOK gOK) sgID desired opts s") auto
    show ?thesis
      using mem_second_pass [OF Some t] t by (simp add: secondRunCalls_def)
  qed
  have "secondRunCalls (memManager always always) sgID desired opts s = [FetchCall [sgID]]"
  proof (cases "s sgID")
    case None
    then show ?thesis
      by (simp add: secondRunCalls_def mem_unknown_pass)
  next
    case (Some ingress)
    then show ?thesis
      by (intro succ mem_always_success)
  qed
  with succ show ?thesis
    by blast
qed

theorem idempotent_after_success_witness:
  "secondRunCalls (memManager always noDuplicates) ''sg-1''
     [rule ''tcp'' 443 ''10.0.0.0/8'' noLabels] []
     (oneGroup ''sg-1'' [rule ''tcp'' 443 ''0.0.0.0/0'' noLabels]) = [FetchCall [''sg-1'']] \<and>
   ReconcileIngress (memManager always noDuplicates) ''sg-1''
     [rule ''tcp'' 443 ''10.0.0.0/8'' noLabels] []
     (oneGroup ''sg-1'' [rule ''tcp'' 443 ''0.0.0.0/0'' noLabels]) =
   (None, oneGroup ''sg-1'' [rule ''tcp'' 443 ''10.0.0.0/8'' noLabels])"
  using idempotent_after_success [where revokeOK = always and grantOK = noDuplicates
      and sgID = "''sg-1''" and desired = "[rule ''tcp'' 443 ''10.0.0.0/8'' noLabels]"
      and opts = "[]" and s = "oneGroup ''sg-1'' [rule ''tcp'' 443 ''0.0.0.0/0'' noLabels]"]
  by (simp add: example_defs ReconcileIngress_def Let_def)

text \<open>
  C8, without the condition: after a first run that fails, the second run does issue a
  mutation call. A manager that refuses the revoke leaves the state as it was, and the
  second run issues the same revoke call again. A manager that rejects duplicate rules
  refuses the grant of a desired list holding two permissions that are equal under the
  policy (\<open>diffIPPermissionInfos\<close> keeps both), and the second run issues the
  same grant call again.
\<close>

theorem idempotence_counterexample:
  "ReconcileIngress (memManager never always) ''sg-1'' [] []
     (oneGroup ''sg-1'' [rule ''tcp'' 443 ''0.0.0.0/0'' noLabels]) =
   (Some (Error ''revoke refused''),
    oneGroup ''sg-1'' [rule ''tcp'' 443 ''0.0.0.0/0'' noLabels]) \<and>
   secondRunCalls (memManager never always) ''sg-1'' [] []
     (oneGroup ''sg-1'' [rule ''tcp'' 443 ''0.0.0.0/0'' noLabels]) =
   [FetchCall [''sg-1''],
    RevokeCall ''sg-1'' [rule ''tcp'' 443 ''0.0.0.0/0'' noLabels]] \<and>
   ReconcileIngress (memManager always noDuplicates) ''sg-1''
     [rule ''tcp'' 443 ''10.0.0.0/8'' noLabels, rule ''tcp'' 443 ''10.0.0.0/8'' ownedLabels] []
     (oneGroup ''sg-1'' []) =
   (Some (Error ''grant refused''), oneGroup ''sg-1'' []) \<and>
   secondRunCalls (memManager always noDuplicates) ''sg-1''
     [rule ''tcp'' 443 ''10.0.0.0/8'' noLabels, rule ''tcp'' 443 ''10.0.0.0/8'' ownedLabels] []
     (oneGroup ''sg-1'' []) =
   [FetchCall [''sg-1''],
    AuthorizeCall ''sg-1''
      [rule ''tcp'' 443 ''10.0.0.0/8'' noLabels, rule ''tcp'' 443 ''10.0.0.0/8'' ownedLabels]]"
  by (simp add: example_defs ReconcileIngress_def secondRunCalls_def recording_def Let_def)

end
